theory Spec2Isabelle
  imports Main "HOL-Library.Multiset"
begin

section \<open>Data model\<close>

text \<open>
  The booking service keeps its data in three database tables. A JavaScript \<open>Date\<close> and an
  SQL timestamp are modelled by the number of milliseconds since the epoch, an \<open>int\<close>; a
  nullable column is an \<open>option\<close>. The primary key column \<open>id\<close> of each table is named
  \<open>booking_id\<close>, \<open>room_id\<close> and \<open>account_id\<close> here, because \<open>id\<close> is HOL's identity
  function.
\<close>

type_synonym date = int

record booking =
  booking_id :: int
  userId :: int
  roomId :: int
  startTime :: date
  endTime :: date
  description :: "string option"
  deletedAt :: "date option"
  createdAt :: date

record room =
  room_id :: int
  room_name :: string
  capacity :: int
  room_description :: "string option"
  ownerId :: int

text \<open>A row of the users table, as the auth routes create it.\<close>

record account =
  account_id :: int
  username :: string
  email :: string
  password :: string
  account_role :: string

text \<open>
  The authenticated caller, as the authentication middleware attaches it to the request
  (\<open>req.user\<close>): its id and its role, a string that is \<open>'admin'\<close> for an elevated caller.
\<close>

record user =
  user_id :: int
  role :: string

text \<open>
  The store: the rows of the bookings, rooms and users tables in storage order, and the
  sequence that hands out the next booking id.
\<close>

record store =
  bookings :: "booking list"
  rooms :: "room list"
  users :: "account list"
  next_booking_id :: int

text \<open>
  Modelled from the spec: the declaration of the id columns is not among the sources. The
  ids are numbers that the database client stores in its integer columns, which hold 32-bit
  signed values; a query for a number outside that range is refused by the client.
\<close>

definition int4 :: "int \<Rightarrow> bool" where
  "int4 n = (- 2147483648 \<le> n \<and> n \<le> 2147483647)"

text \<open>
  The ways in which the database client refuses a query here: a row that repeats the key of
  a unique index, a row that refers to a missing row of another table, and a number that
  does not fit its column.
\<close>

datatype fault = UniqueConstraintFailed | ForeignKeyFailed | ValueOutOfRange

text \<open>
  A thrown error is either an \<open>Error\<close> that the service creates, with its message, or an
  error of the database client.
\<close>

datatype error = Error string | ClientError fault

text \<open>\<open>String.prototype.includes\<close>: the pattern occurs as a contiguous substring.\<close>

fun starts_with :: "string \<Rightarrow> string \<Rightarrow> bool" where
  "starts_with s [] = True"
| "starts_with [] (p # ps) = False"
| "starts_with (c # cs) (p # ps) = (c = p \<and> starts_with cs ps)"

fun str_includes :: "string \<Rightarrow> string \<Rightarrow> bool" where
  "str_includes [] p = starts_with [] p"
| "str_includes (c # cs) p = (starts_with (c # cs) p \<or> str_includes cs p)"

text \<open>
  \<open>e.message.includes(p)\<close>. The message of a client error is the client's own text: it
  names the fields of the index, the foreign key, or the value that does not fit. None of
  the three contains one of the patterns that the routes look for, \<open>'already booked'\<close>,
  \<open>'unique_booking'\<close> and \<open>'not found'\<close>; the unique index of the bookings table is called
  \<open>bookings_user_id_room_id_start_time_end_time_key\<close>.
\<close>

fun message_includes :: "error \<Rightarrow> string \<Rightarrow> bool" where
  "message_includes (Error m) p = str_includes m p"
| "message_includes (ClientError f) p = False"

section \<open>The interval predicates\<close>

text \<open>
  The overlap condition of the raw SQL query in \<open>createBookingSafe\<close>, for a stored row \<open>b\<close>
  and a candidate interval from \<open>st\<close> to \<open>et\<close>:
  \<^verbatim>\<open>(start_time <= st AND end_time > st) OR (start_time < et AND end_time >= et)
     OR (start_time >= st AND end_time <= et)\<close>
\<close>

definition overlaps_raw :: "date \<Rightarrow> date \<Rightarrow> booking \<Rightarrow> bool" where
  "overlaps_raw st et b =
     ((startTime b \<le> st \<and> endTime b > st)
      \<or> (startTime b < et \<and> endTime b \<ge> et)
      \<or> (startTime b \<ge> st \<and> endTime b \<le> et))"

text \<open>
  The \<open>OR\<close> filter of the query object in \<open>checkRoomAvailability\<close>:
  \<open>{startTime lte st, endTime gt st}\<close>, \<open>{startTime lt et, endTime gte et}\<close>,
  \<open>{startTime gte st, endTime lte et}\<close>.
\<close>

definition overlaps_where :: "date \<Rightarrow> date \<Rightarrow> booking \<Rightarrow> bool" where
  "overlaps_where st et b =
     ((startTime b \<le> st \<and> endTime b > st)
      \<or> (startTime b < et \<and> endTime b \<ge> et)
      \<or> (startTime b \<ge> st \<and> endTime b \<le> et))"

text \<open>
  The \<open>OR\<close> filter of the \<open>GET /rooms/available\<close> route, whose bounds are all inclusive:
  \<open>{startTime gte st lte et}\<close>, \<open>{endTime gte st lte et}\<close>, \<open>{startTime lte st, endTime gte et}\<close>.
\<close>

definition overlaps_available :: "date \<Rightarrow> date \<Rightarrow> booking \<Rightarrow> bool" where
  "overlaps_available st et b =
     ((startTime b \<ge> st \<and> startTime b \<le> et)
      \<or> (endTime b \<ge> st \<and> endTime b \<le> et)
      \<or> (startTime b \<le> st \<and> endTime b \<ge> et))"

section \<open>The store\<close>

text \<open>
  \<open>prisma.$transaction\<close>: the callback runs on the store; when it throws, every write it
  made to the tables is rolled back and the error is passed on, otherwise its writes are
  committed. A value that the callback has taken from the id sequence stays taken: the
  database does not roll sequences back.
\<close>

definition transaction ::
  "(store \<Rightarrow> (error + 'a) \<times> store) \<Rightarrow> store \<Rightarrow> (error + 'a) \<times> store" where
  "transaction f s =
     (case f s of
        (Inl e, s') \<Rightarrow> (Inl e, s\<lparr>next_booking_id := next_booking_id s'\<rparr>)
      | (Inr x, s') \<Rightarrow> (Inr x, s'))"

text \<open>
  The unique index of the bookings table, as the migration creates it:
  \<^verbatim>\<open>CREATE UNIQUE INDEX "bookings_user_id_room_id_start_time_end_time_key"
     ON "bookings"("user_id", "room_id", "start_time", "end_time")\<close>
  It has no condition on \<open>deleted_at\<close>, so it covers the cancelled rows too. A new row
  violates it when a stored row has the same user, room, start and end.
\<close>

definition unique_booking_violated :: "store \<Rightarrow> int \<Rightarrow> int \<Rightarrow> date \<Rightarrow> date \<Rightarrow> bool" where
  "unique_booking_violated s uid rid st et =
     list_ex (\<lambda>b. userId b = uid \<and> roomId b = rid \<and> startTime b = st \<and> endTime b = et) (bookings s)"

text \<open>
  The foreign keys of the bookings table (backend README: \<open>userId\<close> is a foreign key to
  users, \<open>roomId\<close> one to rooms): a new row violates them when its user or its room has no
  row.
\<close>

definition foreign_key_violated :: "store \<Rightarrow> int \<Rightarrow> int \<Rightarrow> bool" where
  "foreign_key_violated s uid rid =
     (\<not> list_ex (\<lambda>a. account_id a = uid) (users s) \<or> \<not> list_ex (\<lambda>r. room_id r = rid) (rooms s))"

text \<open>
  Modelled from the spec: \<open>tx.booking.create\<close> on the bookings table, whose declaration,
  the unique index apart, is not among the sources. The row gets its id from the table's
  sequence (spec, section 3: a stable identity, assigned at creation, never reused),
  \<open>deletedAt\<close> is null and \<open>createdAt\<close> is the current time. The client refuses a user
  or room id that does not fit its column before it asks the database. When the sequence
  has run past the 32-bit id column there is no id to take and the insert fails. Otherwise
  the id is taken, also when the insert then fails: a row that violates the unique index is
  rejected, and so is one that violates a foreign key. The index is checked when the row is
  entered, the foreign keys after it.
\<close>

definition booking_create ::
  "store \<Rightarrow> int \<Rightarrow> int \<Rightarrow> date \<Rightarrow> date \<Rightarrow> string option \<Rightarrow> date \<Rightarrow> (error + booking) \<times> store" where
  "booking_create s uid rid st et descr now =
     (if \<not> int4 uid \<or> \<not> int4 rid then (Inl (ClientError ValueOutOfRange), s)
      else if \<not> int4 (next_booking_id s) then (Inl (ClientError ValueOutOfRange), s)
      else if unique_booking_violated s uid rid st et
      then (Inl (ClientError UniqueConstraintFailed),
            s\<lparr>next_booking_id := next_booking_id s + 1\<rparr>)
      else if foreign_key_violated s uid rid
      then (Inl (ClientError ForeignKeyFailed), s\<lparr>next_booking_id := next_booking_id s + 1\<rparr>)
      else
        (let b = \<lparr>booking_id = next_booking_id s, userId = uid, roomId = rid, startTime = st,
                  endTime = et, description = descr, deletedAt = None, createdAt = now\<rparr>
         in (Inr b, s\<lparr>bookings := bookings s @ [b], next_booking_id := next_booking_id s + 1\<rparr>)))"

text \<open>
  The store is well formed when the ids of its bookings are distinct (the primary key),
  positive and below the sequence's next value, which is positive and at most one past the
  32-bit range; so every stored id fits the id column. The empty store is well formed, and
  the two operations that write to the table, \<open>createBookingSafe\<close> and \<open>softDeleteBooking\<close>,
  keep it so.
\<close>

definition wf_store :: "store \<Rightarrow> bool" where
  "wf_store s =
     (distinct (map booking_id (bookings s))
      \<and> list_all (\<lambda>b. 0 < booking_id b \<and> booking_id b < next_booking_id s) (bookings s)
      \<and> 0 < next_booking_id s \<and> next_booking_id s \<le> 2147483648)"

definition empty_store :: store where
  "empty_store = \<lparr>bookings = [], rooms = [], users = [], next_booking_id = 1\<rparr>"

definition without_cancelled :: "store \<Rightarrow> store" where
  "without_cancelled s = s\<lparr>bookings := filter (\<lambda>b. deletedAt b = None) (bookings s)\<rparr>"

section \<open>The booking service\<close>

text \<open>
  The raw query of \<open>createBookingSafe\<close>: the ids of the rows of the room that are not
  cancelled and overlap the candidate interval.
\<close>

definition overlappingBookings :: "store \<Rightarrow> int \<Rightarrow> date \<Rightarrow> date \<Rightarrow> int list" where
  "overlappingBookings s rid st et =
     map booking_id
       (filter (\<lambda>b. roomId b = rid \<and> deletedAt b = None \<and> overlaps_raw st et b) (bookings s))"

text \<open>
  \<open>createBookingSafe\<close>: inside one transaction, throw when the query finds a row, else
  create the booking. The last argument is the time of the call.
\<close>

definition createBookingSafe ::
  "store \<Rightarrow> int \<Rightarrow> int \<Rightarrow> date \<Rightarrow> date \<Rightarrow> string option \<Rightarrow> date \<Rightarrow> (error + booking) \<times> store" where
  "createBookingSafe s uid rid st et descr now =
     transaction
       (\<lambda>tx. if length (overlappingBookings tx rid st et) > 0
             then (Inl (Error ''Room is already booked for this time period''), tx)
             else booking_create tx uid rid st et descr now) s"

text \<open>
  \<open>getActiveBookings\<close>: the spread \<open>...(userId && {userId})\<close> adds the owner filter only
  for a truthy \<open>userId\<close>, so neither an absent argument nor \<open>0\<close> filters. The rows come back
  ordered by \<open>startTime\<close> ascending; the order of rows with equal start is the database's
  choice, here the one of insertion sort.
\<close>

definition getActiveBookings :: "store \<Rightarrow> int option \<Rightarrow> booking list" where
  "getActiveBookings s uid =
     sort_key startTime
       (filter (\<lambda>b. deletedAt b = None
                  \<and> (case uid of None \<Rightarrow> True | Some u \<Rightarrow> (if u = 0 then True else userId b = u)))
          (bookings s))"

text \<open>
  \<open>getBookingById\<close>: the active booking with the id, or null. The lookup throws when the
  id does not fit the id column.
\<close>

definition getBookingById :: "store \<Rightarrow> int \<Rightarrow> error + booking option" where
  "getBookingById s bookingId =
     (if \<not> int4 bookingId then Inl (ClientError ValueOutOfRange)
      else Inr (find (\<lambda>b. booking_id b = bookingId \<and> deletedAt b = None) (bookings s)))"

text \<open>
  \<open>softDeleteBooking\<close>: the actor \<open>0\<close> looks the active booking up by id alone, any other
  actor by id and owner. The lookup throws when the booking id does not fit the id column;
  the actor is \<open>0\<close> or the id of a user, which fits. A booking that is not found throws; a
  found one gets \<open>deletedAt\<close> set to the time of the update, by an update on the primary key.
\<close>

definition softDeleteBooking :: "store \<Rightarrow> int \<Rightarrow> int \<Rightarrow> date \<Rightarrow> (error + booking) \<times> store" where
  "softDeleteBooking s bookingId uid now =
     (if \<not> int4 bookingId then (Inl (ClientError ValueOutOfRange), s)
      else
     (case (if uid = 0
            then find (\<lambda>b. booking_id b = bookingId \<and> deletedAt b = None) (bookings s)
            else find (\<lambda>b. booking_id b = bookingId \<and> userId b = uid \<and> deletedAt b = None)
                   (bookings s)) of
        None \<Rightarrow> (Inl (Error ''Booking not found or already cancelled''), s)
      | Some b \<Rightarrow>
          (Inr (b\<lparr>deletedAt := Some now\<rparr>),
           s\<lparr>bookings :=
               map (\<lambda>r. if booking_id r = bookingId then r\<lparr>deletedAt := Some now\<rparr> else r)
                 (bookings s)\<rparr>)))"

text \<open>
  \<open>checkRoomAvailability\<close>: counts the active rows of the room that overlap the interval;
  the spread \<open>...(excludeBookingId && {id: {not: excludeBookingId}})\<close> excludes a booking
  only for a truthy id.
\<close>

definition checkRoomAvailability :: "store \<Rightarrow> int \<Rightarrow> date \<Rightarrow> date \<Rightarrow> int option \<Rightarrow> bool" where
  "checkRoomAvailability s rid st et excludeBookingId =
     (length
        (filter (\<lambda>b. roomId b = rid \<and> deletedAt b = None \<and> overlaps_where st et b
                   \<and> (case excludeBookingId of None \<Rightarrow> True
                       | Some x \<Rightarrow> (if x = 0 then True else booking_id b \<noteq> x)))
           (bookings s)) = 0)"

section \<open>The routes\<close>

text \<open>
  A response is its HTTP status and its JSON body. The rows that a query joins to a booking
  (\<open>include: room, user\<close>) are left out of the body.
\<close>

datatype body =
  Message string
  | ErrorBody string error
  | BookingBody booking
  | BookingList "booking list"
  | CancelledBody string booking
  | RoomList "room list"

type_synonym response = "nat \<times> body"

text \<open>
  The body of \<open>POST /bookings\<close>. A field that is absent is \<open>None\<close>. The two times are
  sent as date strings: \<open>None\<close> is an absent or empty string, \<open>Some t\<close> a string that
  \<open>new Date\<close> parses to the time \<open>t\<close>; a string that does not parse to a date is
  outside the model.
\<close>

record booking_request =
  req_room_id :: "int option"
  req_user_id :: "int option"
  req_start_time :: "date option"
  req_end_time :: "date option"
  req_description :: "string option"

text \<open>\<open>user_id || currentUser.id\<close>\<close>

definition bookingUserId :: "user \<Rightarrow> booking_request \<Rightarrow> int" where
  "bookingUserId currentUser req =
     (case req_user_id req of None \<Rightarrow> user_id currentUser
      | Some u \<Rightarrow> (if u = 0 then user_id currentUser else u))"

text \<open>\<open>user_id && user_id !== currentUser.id && currentUser.role !== 'admin'\<close>\<close>

definition other_user_forbidden :: "user \<Rightarrow> booking_request \<Rightarrow> bool" where
  "other_user_forbidden currentUser req =
     (case req_user_id req of None \<Rightarrow> False
      | Some u \<Rightarrow> u \<noteq> 0 \<and> u \<noteq> user_id currentUser \<and> role currentUser \<noteq> ''admin'')"

text \<open>The \<open>catch\<close> block of \<open>POST /bookings\<close>.\<close>

definition create_failed :: "error \<Rightarrow> response" where
  "create_failed e =
     (if message_includes e ''already booked'' \<or> message_includes e ''unique_booking''
      then (409, Message ''Room is already booked for this time period'')
      else (500, ErrorBody ''Error creating booking'' e))"

definition route_post_bookings ::
  "store \<Rightarrow> user \<Rightarrow> booking_request \<Rightarrow> date \<Rightarrow> response \<times> store" where
  "route_post_bookings s currentUser req now =
     (case req_room_id req of
        None \<Rightarrow> ((400, Message ''room_id, start_time, and end_time are required''), s)
      | Some rid \<Rightarrow>
     (case req_start_time req of
        None \<Rightarrow> ((400, Message ''room_id, start_time, and end_time are required''), s)
      | Some st \<Rightarrow>
     (case req_end_time req of
        None \<Rightarrow> ((400, Message ''room_id, start_time, and end_time are required''), s)
      | Some et \<Rightarrow>
          if rid = 0
          then ((400, Message ''room_id, start_time, and end_time are required''), s)
          else if other_user_forbidden currentUser req
          then ((403, Message ''Only admin can create bookings for other users''), s)
          else
            (case createBookingSafe s (bookingUserId currentUser req) rid st et
                    (req_description req) now of
               (Inr b, s') \<Rightarrow> ((201, BookingBody b), s')
             | (Inl e, s') \<Rightarrow> (create_failed e, s')))))"

text \<open>\<open>GET /bookings\<close>: an admin lists without an owner, anyone else with the own id.\<close>

definition route_get_bookings :: "store \<Rightarrow> user \<Rightarrow> response" where
  "route_get_bookings s u =
     (if role u = ''admin'' then (200, BookingList (getActiveBookings s None))
      else (200, BookingList (getActiveBookings s (Some (user_id u)))))"

text \<open>The \<open>catch\<close> block of \<open>DELETE /bookings/:id\<close>.\<close>

definition cancel_failed :: "error \<Rightarrow> response" where
  "cancel_failed e =
     (if message_includes e ''not found''
      then (404, Message ''Booking not found or already cancelled'')
      else (500, ErrorBody ''Error cancelling booking'' e))"

text \<open>
  The checks that \<open>DELETE /bookings/:id\<close> makes for a caller who is not an admin, with the
  response of the check that fails; \<open>now\<close> is the time the route reads. A lookup that
  throws is answered by the \<open>catch\<close> block.
\<close>

definition cancel_refused :: "store \<Rightarrow> user \<Rightarrow> int \<Rightarrow> date \<Rightarrow> response option" where
  "cancel_refused s u bookingId now =
     (if role u \<noteq> ''admin'' then
        (case getBookingById s bookingId of
           Inl e \<Rightarrow> Some (cancel_failed e)
         | Inr None \<Rightarrow> Some (404, Message ''Booking not found'')
         | Inr (Some b) \<Rightarrow>
             if userId b \<noteq> user_id u then Some (403, Message ''Not authorized'')
             else if startTime b \<le> now
             then Some (400, Message ''Cannot cancel past or ongoing bookings'')
             else None)
      else None)"

text \<open>The actor that the route hands to \<open>softDeleteBooking\<close>.\<close>

definition cancel_actor :: "user \<Rightarrow> int" where
  "cancel_actor u = (if role u = ''admin'' then 0 else user_id u)"

text \<open>
  \<open>DELETE /bookings/:id\<close>, for the number that \<open>parseInt\<close> reads from the path; \<open>now\<close> is
  the time the route reads for its check, \<open>now_upd\<close> the later one that the update writes.
\<close>

definition route_delete_booking ::
  "store \<Rightarrow> user \<Rightarrow> int \<Rightarrow> date \<Rightarrow> date \<Rightarrow> response \<times> store" where
  "route_delete_booking s u bookingId now now_upd =
     (case cancel_refused s u bookingId now of
        Some r \<Rightarrow> (r, s)
      | None \<Rightarrow>
          (case softDeleteBooking s bookingId (cancel_actor u) now_upd of
             (Inr b, s') \<Rightarrow> ((200, CancelledBody ''Booking cancelled successfully'' b), s')
           | (Inl e, s') \<Rightarrow> (cancel_failed e, s')))"

text \<open>
  \<open>GET /rooms/available\<close>: the rooms that have no booking matching the route's filter.
  The filter has no condition on \<open>deletedAt\<close>.
\<close>

definition bookedRoomIds :: "store \<Rightarrow> date \<Rightarrow> date \<Rightarrow> int list" where
  "bookedRoomIds s st et = map roomId (filter (overlaps_available st et) (bookings s))"

definition route_rooms_available :: "store \<Rightarrow> date option \<Rightarrow> date option \<Rightarrow> response" where
  "route_rooms_available s start_time end_time =
     (case start_time of
        None \<Rightarrow> (400, Message ''start_time and end_time are required'')
      | Some st \<Rightarrow>
     (case end_time of
        None \<Rightarrow> (400, Message ''start_time and end_time are required'')
      | Some et \<Rightarrow>
          (200, RoomList (filter (\<lambda>r. room_id r \<notin> set (bookedRoomIds s st et)) (rooms s)))))"

section \<open>Sample data\<close>

text \<open>Rows, stores and requests for the concrete instances below.\<close>

abbreviation booking_at :: "int \<Rightarrow> int \<Rightarrow> int \<Rightarrow> date \<Rightarrow> date \<Rightarrow> date option \<Rightarrow> booking" where
  "booking_at i u r st et del \<equiv>
     \<lparr>booking_id = i, userId = u, roomId = r, startTime = st, endTime = et,
      description = None, deletedAt = del, createdAt = 0\<rparr>"

abbreviation room_at :: "int \<Rightarrow> room" where
  "room_at i \<equiv>
     \<lparr>room_id = i, room_name = ''Room'', capacity = 4, room_description = None, ownerId = 1\<rparr>"

abbreviation account_at :: "int \<Rightarrow> account" where
  "account_at i \<equiv>
     \<lparr>account_id = i, username = ''name'', email = ''mail'', password = ''hash'',
      account_role = ''user''\<rparr>"

abbreviation store_of :: "booking list \<Rightarrow> int \<Rightarrow> store" where
  "store_of bs n \<equiv>
     \<lparr>bookings = bs, rooms = [room_at 1], users = [account_at 1, account_at 2, account_at 7],
      next_booking_id = n\<rparr>"

abbreviation request_at :: "int \<Rightarrow> date \<Rightarrow> date \<Rightarrow> booking_request" where
  "request_at r st et \<equiv>
     \<lparr>req_room_id = Some r, req_user_id = None, req_start_time = Some st,
      req_end_time = Some et, req_description = None\<rparr>"

section \<open>The conflict predicate\<close>

text \<open>
  C1. The conflict predicate of reservation creation and the one of the availability check are
  the same predicate, and on proper intervals (start before end on both sides) the three-clause
  disjunction is the half-open overlap test: it holds iff the row starts before the candidate
  ends and the candidate starts before the row ends. In particular back-to-back intervals do
  not conflict, while identical intervals and an interval nested in the other do.
\<close>

theorem conflict_half_open:
  assumes "startTime b < endTime b" and "st < et"
  shows "overlaps_raw st et b = overlaps_where st et b
    \<and> (overlaps_raw st et b \<longleftrightarrow> startTime b < et \<and> st < endTime b)
    \<and> (overlaps_where st et b \<longleftrightarrow> startTime b < et \<and> st < endTime b)
    \<and> (endTime b = st \<or> startTime b = et \<longrightarrow> \<not> overlaps_raw st et b \<and> \<not> overlaps_where st et b)
    \<and> (startTime b = st \<and> endTime b = et \<longrightarrow> overlaps_raw st et b \<and> overlaps_where st et b)
    \<and> (st \<le> startTime b \<and> endTime b \<le> et \<longrightarrow> overlaps_raw st et b \<and> overlaps_where st et b)
    \<and> (startTime b \<le> st \<and> et \<le> endTime b \<longrightarrow> overlaps_raw st et b \<and> overlaps_where st et b)"
  using assms unfolding overlaps_raw_def overlaps_where_def by auto

theorem conflict_half_open_witness:
  "overlaps_raw 10 20 \<lparr>booking_id = 1, userId = 1, roomId = 1, startTime = 15, endTime = 25,
      description = None, deletedAt = None, createdAt = 0\<rparr>
   \<and> \<not> overlaps_where 10 20 \<lparr>booking_id = 1, userId = 1, roomId = 1, startTime = 20, endTime = 30,
      description = None, deletedAt = None, createdAt = 0\<rparr>"
  using conflict_half_open [of "\<lparr>booking_id = 1, userId = 1, roomId = 1, startTime = 15, endTime = 25,
      description = None, deletedAt = None, createdAt = 0\<rparr>" 10 20]
    conflict_half_open [of "\<lparr>booking_id = 1, userId = 1, roomId = 1, startTime = 20, endTime = 30,
      description = None, deletedAt = None, createdAt = 0\<rparr>" 10 20]
  by simp

section \<open>Rows and their ids\<close>

lemma find_by_key:
  "distinct (map booking_id xs) \<Longrightarrow> r \<in> set xs \<Longrightarrow> P r \<Longrightarrow>
   (\<And>b. P b \<Longrightarrow> booking_id b = booking_id r) \<Longrightarrow> find P xs = Some r"
proof (induction xs)
  case Nil
  from Nil.prems(2) show ?case by simp
next
  case (Cons x xs)
  show ?case
  proof (cases "x = r")
    case True
    with Cons.prems(3) show ?thesis by simp
  next
    case False
    with Cons.prems(2) have in_tl: "r \<in> set xs" by simp
    from Cons.prems(1) have "booking_id x \<notin> booking_id ` set xs" by simp
    with in_tl have "booking_id x \<noteq> booking_id r" by force
    with Cons.prems(4) have not_x: "\<not> P x" by blast
    from Cons.prems(1) have "distinct (map booking_id xs)" by simp
    then have "find P xs = Some r"
      using in_tl Cons.prems(3,4) by (rule Cons.IH)
    with not_x show ?thesis by simp
  qed
qed

lemma same_id_same_row:
  "distinct (map booking_id xs) \<Longrightarrow> r \<in> set xs \<Longrightarrow> b \<in> set xs \<Longrightarrow>
   booking_id b = booking_id r \<Longrightarrow> b = r"
  by (meson distinct_map inj_onD)

lemma wf_store_int4:
  assumes "wf_store s" and "r \<in> set (bookings s)"
  shows "int4 (booking_id r)"
proof -
  from assms have "0 < booking_id r" and "booking_id r < next_booking_id s"
    and "next_booking_id s \<le> 2147483648"
    by (simp_all add: wf_store_def list_all_iff)
  then show ?thesis by (simp add: int4_def)
qed

lemma find_active:
  "wf_store s \<Longrightarrow> r \<in> set (bookings s) \<Longrightarrow> deletedAt r = None \<Longrightarrow>
   find (\<lambda>b. booking_id b = booking_id r \<and> deletedAt b = None) (bookings s) = Some r"
  using find_by_key [where P = "\<lambda>b. booking_id b = booking_id r \<and> deletedAt b = None"
      and xs = "bookings s" and r = r]
  by (simp add: wf_store_def)

lemma getBookingById_active:
  "wf_store s \<Longrightarrow> r \<in> set (bookings s) \<Longrightarrow> deletedAt r = None \<Longrightarrow>
   getBookingById s (booking_id r) = Inr (Some r)"
  by (simp add: getBookingById_def wf_store_int4 find_active)


section \<open>Creation\<close>

lemma overlappingBookings_Nil_iff:
  "overlappingBookings s rid st et = [] \<longleftrightarrow>
   \<not> (\<exists>b\<in>set (bookings s). roomId b = rid \<and> deletedAt b = None \<and> overlaps_raw st et b)"
  by (auto simp: overlappingBookings_def filter_empty_conv)

lemma createBookingSafe_conflict:
  "overlappingBookings s rid st et \<noteq> [] \<Longrightarrow>
   createBookingSafe s uid rid st et d now =
     (Inl (Error ''Room is already booked for this time period''), s)"
  by (simp add: createBookingSafe_def transaction_def)

lemma createBookingSafe_out_of_range:
  "overlappingBookings s rid st et = [] \<Longrightarrow>
   \<not> int4 uid \<or> \<not> int4 rid \<or> \<not> int4 (next_booking_id s) \<Longrightarrow>
   createBookingSafe s uid rid st et d now = (Inl (ClientError ValueOutOfRange), s)"
  by (auto simp: createBookingSafe_def transaction_def booking_create_def)

lemma createBookingSafe_duplicate:
  "overlappingBookings s rid st et = [] \<Longrightarrow> int4 uid \<Longrightarrow> int4 rid \<Longrightarrow>
   int4 (next_booking_id s) \<Longrightarrow> unique_booking_violated s uid rid st et \<Longrightarrow>
   createBookingSafe s uid rid st et d now =
     (Inl (ClientError UniqueConstraintFailed), s\<lparr>next_booking_id := next_booking_id s + 1\<rparr>)"
  by (simp add: createBookingSafe_def transaction_def booking_create_def)

lemma createBookingSafe_foreign_key:
  "overlappingBookings s rid st et = [] \<Longrightarrow> int4 uid \<Longrightarrow> int4 rid \<Longrightarrow>
   int4 (next_booking_id s) \<Longrightarrow> \<not> unique_booking_violated s uid rid st et \<Longrightarrow>
   foreign_key_violated s uid rid \<Longrightarrow>
   createBookingSafe s uid rid st et d now =
     (Inl (ClientError ForeignKeyFailed), s\<lparr>next_booking_id := next_booking_id s + 1\<rparr>)"
  by (simp add: createBookingSafe_def transaction_def booking_create_def)

lemma createBookingSafe_insert:
  "overlappingBookings s rid st et = [] \<Longrightarrow> int4 uid \<Longrightarrow> int4 rid \<Longrightarrow>
   int4 (next_booking_id s) \<Longrightarrow> \<not> unique_booking_violated s uid rid st et \<Longrightarrow>
   \<not> foreign_key_violated s uid rid \<Longrightarrow>
   createBookingSafe s uid rid st et d now =
     (Inr \<lparr>booking_id = next_booking_id s, userId = uid, roomId = rid, startTime = st,
            endTime = et, description = d, deletedAt = None, createdAt = now\<rparr>,
      s\<lparr>bookings := bookings s @
           [\<lparr>booking_id = next_booking_id s, userId = uid, roomId = rid, startTime = st,
             endTime = et, description = d, deletedAt = None, createdAt = now\<rparr>],
        next_booking_id := next_booking_id s + 1\<rparr>)"
  by (simp add: createBookingSafe_def transaction_def booking_create_def Let_def)

text \<open>The five ways in which \<open>createBookingSafe\<close> ends.\<close>

lemma createBookingSafe_cases:
  obtains
    (conflict) "overlappingBookings s rid st et \<noteq> []"
      "createBookingSafe s uid rid st et d now =
         (Inl (Error ''Room is already booked for this time period''), s)"
  | (range) "overlappingBookings s rid st et = []"
      "createBookingSafe s uid rid st et d now = (Inl (ClientError ValueOutOfRange), s)"
  | (duplicate) "overlappingBookings s rid st et = []" "int4 (next_booking_id s)"
      "createBookingSafe s uid rid st et d now =
         (Inl (ClientError UniqueConstraintFailed),
          s\<lparr>next_booking_id := next_booking_id s + 1\<rparr>)"
  | (foreign_key) "overlappingBookings s rid st et = []" "int4 (next_booking_id s)"
      "createBookingSafe s uid rid st et d now =
         (Inl (ClientError ForeignKeyFailed), s\<lparr>next_booking_id := next_booking_id s + 1\<rparr>)"
  | (insert) "overlappingBookings s rid st et = []" "int4 (next_booking_id s)"
      "createBookingSafe s uid rid st et d now =
         (Inr \<lparr>booking_id = next_booking_id s, userId = uid, roomId = rid, startTime = st,
                endTime = et, description = d, deletedAt = None, createdAt = now\<rparr>,
          s\<lparr>bookings := bookings s @
               [\<lparr>booking_id = next_booking_id s, userId = uid, roomId = rid, startTime = st,
                 endTime = et, description = d, deletedAt = None, createdAt = now\<rparr>],
            next_booking_id := next_booking_id s + 1\<rparr>)"
proof (cases "overlappingBookings s rid st et = []")
  case False
  then show ?thesis using conflict createBookingSafe_conflict by blast
next
  case free: True
  show ?thesis
  proof (cases "\<not> int4 uid \<or> \<not> int4 rid \<or> \<not> int4 (next_booking_id s)")
    case True
    with free show ?thesis using range createBookingSafe_out_of_range by blast
  next
    case False
    then have fits: "int4 uid" "int4 rid" "int4 (next_booking_id s)" by simp_all
    show ?thesis
    proof (cases "unique_booking_violated s uid rid st et")
      case True
      with free fits show ?thesis using duplicate createBookingSafe_duplicate by blast
    next
      case unique: False
      show ?thesis
      proof (cases "foreign_key_violated s uid rid")
        case True
        with free fits unique show ?thesis
          using foreign_key createBookingSafe_foreign_key by blast
      next
        case False
        with free fits unique show ?thesis
          using insert createBookingSafe_insert by blast
      qed
    qed
  qed
qed

lemma createBookingSafe_Inr:
  assumes "createBookingSafe s uid rid st et d now = (Inr x, s')"
  shows "overlappingBookings s rid st et = []
    \<and> x = \<lparr>booking_id = next_booking_id s, userId = uid, roomId = rid, startTime = st,
            endTime = et, description = d, deletedAt = None, createdAt = now\<rparr>
    \<and> bookings s' = bookings s @ [x]"
  by (rule createBookingSafe_cases [where s = s and uid = uid and rid = rid and st = st
        and et = et and d = d and now = now])
    (use assms in auto)


lemma duplicate_is_cancelled:
  assumes "overlappingBookings s rid st et = []" and "b \<in> set (bookings s)"
    and "roomId b = rid" and "startTime b = st" and "endTime b = et"
  shows "deletedAt b \<noteq> None"
proof
  assume "deletedAt b = None"
  moreover from assms(4,5) have "overlaps_raw st et b" by (simp add: overlaps_raw_def)
  ultimately have "\<exists>b\<in>set (bookings s). roomId b = rid \<and> deletedAt b = None \<and> overlaps_raw st et b"
    using assms(2,3) by blast
  with assms(1) show False by (simp add: overlappingBookings_Nil_iff)
qed

lemma create_failed_conflict:
  "create_failed (Error ''Room is already booked for this time period'') =
     (409, Message ''Room is already booked for this time period'')"
  by (simp add: create_failed_def)

lemma create_failed_client:
  "create_failed (ClientError f) = (500, ErrorBody ''Error creating booking'' (ClientError f))"
  by (simp add: create_failed_def)

lemma route_post_bookings_create:
  "req_room_id req = Some rid \<Longrightarrow> rid \<noteq> 0 \<Longrightarrow> req_start_time req = Some st \<Longrightarrow>
   req_end_time req = Some et \<Longrightarrow> \<not> other_user_forbidden cu req \<Longrightarrow>
   route_post_bookings s cu req now =
     (case createBookingSafe s (bookingUserId cu req) rid st et (req_description req) now of
        (Inr b, s') \<Rightarrow> ((201, BookingBody b), s')
      | (Inl e, s') \<Rightarrow> (create_failed e, s'))"
  by (simp add: route_post_bookings_def)

text \<open>
  A conflict with an active booking of the room is answered with status 409, and nothing is
  written.
\<close>

lemma route_post_bookings_conflict:
  assumes "\<exists>b\<in>set (bookings s). roomId b = rid \<and> deletedAt b = None \<and> overlaps_raw st et b"
    and "req_room_id req = Some rid" and "rid \<noteq> 0" and "req_start_time req = Some st"
    and "req_end_time req = Some et" and "\<not> other_user_forbidden cu req"
  shows "route_post_bookings s cu req now =
     ((409, Message ''Room is already booked for this time period''), s)"
proof -
  from assms(1) have "overlappingBookings s rid st et \<noteq> []"
    by (simp add: overlappingBookings_Nil_iff)
  then show ?thesis
    by (simp add: route_post_bookings_create [OF assms(2-6)] createBookingSafe_conflict
        create_failed_conflict)
qed

text \<open>
  C2. The code does not do what the claim says when no active booking conflicts. After the
  booking of user 1 for room 1 from 10 to 20 has been cancelled, the overlap query of
  \<open>createBookingSafe\<close>, which skips cancelled rows, finds nothing for the same interval. The
  insert of the same user's new booking is then rejected by the unique index, which covers
  cancelled rows: no row is inserted, one id of the sequence is used up, and
  \<open>POST /bookings\<close> answers with status 500. The claim has a new active booking inserted.
\<close>

theorem create_rejects_cancelled_duplicate:
  "overlappingBookings (store_of [booking_at 1 1 1 10 20 (Some 5)] 2) 1 10 20 = []
   \<and> createBookingSafe (store_of [booking_at 1 1 1 10 20 (Some 5)] 2) 1 1 10 20 None 6
       = (Inl (ClientError UniqueConstraintFailed),
          store_of [booking_at 1 1 1 10 20 (Some 5)] 3)
   \<and> route_post_bookings (store_of [booking_at 1 1 1 10 20 (Some 5)] 2)
        \<lparr>user_id = 1, role = ''user''\<rparr> (request_at 1 10 20) 6
       = ((500, ErrorBody ''Error creating booking'' (ClientError UniqueConstraintFailed)),
          store_of [booking_at 1 1 1 10 20 (Some 5)] 3)"
  by (simp add: route_post_bookings_def other_user_forbidden_def bookingUserId_def
      create_failed_def overlappingBookings_def createBookingSafe_def transaction_def
      booking_create_def unique_booking_violated_def int4_def)

section \<open>The invariant of the store\<close>

lemma wf_store_empty_store: "wf_store empty_store"
  by (simp add: wf_store_def empty_store_def)

lemma wf_store_next:
  assumes "wf_store s" and "int4 (next_booking_id s)"
  shows "wf_store (s\<lparr>next_booking_id := next_booking_id s + 1\<rparr>)"
  using assms by (auto simp: wf_store_def list_all_iff int4_def)

lemma wf_store_createBookingSafe:
  assumes "wf_store s" and "createBookingSafe s uid rid st et d now = (res, s')"
  shows "wf_store s'"
proof (rule createBookingSafe_cases [where s = s and uid = uid and rid = rid and st = st
        and et = et and d = d and now = now])
  assume "createBookingSafe s uid rid st et d now =
         (Inl (Error ''Room is already booked for this time period''), s)"
  with assms show ?thesis by simp
next
  assume "createBookingSafe s uid rid st et d now = (Inl (ClientError ValueOutOfRange), s)"
  with assms show ?thesis by simp
next
  assume "int4 (next_booking_id s)" and "createBookingSafe s uid rid st et d now =
         (Inl (ClientError UniqueConstraintFailed),
          s\<lparr>next_booking_id := next_booking_id s + 1\<rparr>)"
  with assms show ?thesis using wf_store_next [of s] by simp
next
  assume "int4 (next_booking_id s)" and "createBookingSafe s uid rid st et d now =
         (Inl (ClientError ForeignKeyFailed), s\<lparr>next_booking_id := next_booking_id s + 1\<rparr>)"
  with assms show ?thesis using wf_store_next [of s] by simp
next
  assume fits: "int4 (next_booking_id s)" and "createBookingSafe s uid rid st et d now =
         (Inr \<lparr>booking_id = next_booking_id s, userId = uid, roomId = rid, startTime = st,
                endTime = et, description = d, deletedAt = None, createdAt = now\<rparr>,
          s\<lparr>bookings := bookings s @
               [\<lparr>booking_id = next_booking_id s, userId = uid, roomId = rid, startTime = st,
                 endTime = et, description = d, deletedAt = None, createdAt = now\<rparr>],
            next_booking_id := next_booking_id s + 1\<rparr>)"
  with assms(2) have s': "s' = s\<lparr>bookings := bookings s @
           [\<lparr>booking_id = next_booking_id s, userId = uid, roomId = rid, startTime = st,
             endTime = et, description = d, deletedAt = None, createdAt = now\<rparr>],
        next_booking_id := next_booking_id s + 1\<rparr>"
    by simp
  from assms(1) have "\<forall>b\<in>set (bookings s). booking_id b < next_booking_id s"
    by (simp add: wf_store_def list_all_iff)
  then have "next_booking_id s \<notin> booking_id ` set (bookings s)" by auto
  with assms(1) fits show ?thesis unfolding s'
    by (auto simp: wf_store_def list_all_iff int4_def)
qed

lemma wf_store_softDeleteBooking:
  assumes "wf_store s" and "softDeleteBooking s bookingId uid now = (res, s')"
  shows "wf_store s'"
proof -
  have ids: "booking_id \<circ> (\<lambda>r. if booking_id r = bookingId then r\<lparr>deletedAt := Some now\<rparr> else r)
      = booking_id"
    by (auto simp: fun_eq_iff)
  from assms(2) have "s' = s \<or> s' = s\<lparr>bookings :=
      map (\<lambda>r. if booking_id r = bookingId then r\<lparr>deletedAt := Some now\<rparr> else r) (bookings s)\<rparr>"
    by (auto simp: softDeleteBooking_def split: option.splits if_splits)
  then show ?thesis
  proof
    assume "s' = s"
    with assms(1) show ?thesis by simp
  next
    assume s': "s' = s\<lparr>bookings :=
      map (\<lambda>r. if booking_id r = bookingId then r\<lparr>deletedAt := Some now\<rparr> else r) (bookings s)\<rparr>"
    from assms(1) show ?thesis unfolding s' wf_store_def
      by (auto simp: ids list_all_iff)
  qed
qed

section \<open>Cancelled bookings in conflict checks\<close>

text \<open>
  The overlap query of \<open>createBookingSafe\<close> and \<open>checkRoomAvailability\<close> both filter on
  \<open>deletedAt\<close> null, so removing the cancelled rows changes neither.
\<close>

lemma overlappingBookings_without_cancelled:
  "overlappingBookings (without_cancelled s) rid st et = overlappingBookings s rid st et"
  by (simp add: overlappingBookings_def without_cancelled_def conj_commute conj_left_commute
      cong: conj_cong)

lemma checkRoomAvailability_without_cancelled:
  "checkRoomAvailability (without_cancelled s) rid st et x = checkRoomAvailability s rid st et x"
proof -
  have "filter (\<lambda>b. roomId b = rid \<and> deletedAt b = None \<and> overlaps_where st et b
                   \<and> (case x of None \<Rightarrow> True
                       | Some x \<Rightarrow> (if x = 0 then True else booking_id b \<noteq> x)))
          (filter (\<lambda>b. deletedAt b = None) (bookings s))
      = filter (\<lambda>b. roomId b = rid \<and> deletedAt b = None \<and> overlaps_where st et b
                   \<and> (case x of None \<Rightarrow> True
                       | Some x \<Rightarrow> (if x = 0 then True else booking_id b \<noteq> x)))
          (bookings s)"
    by (induction "bookings s" arbitrary: s) (auto intro: filter_cong)
  then show ?thesis by (simp add: checkRoomAvailability_def without_cancelled_def)
qed

text \<open>
  C3. The listing of available rooms is not unchanged when the cancelled bookings are
  removed: the filter of \<open>GET /rooms/available\<close> has no condition on \<open>deletedAt\<close>. With the
  only booking of room 1, from 10 to 20, cancelled, the route still lists no room as available
  from 10 to 20; on the store without that row it lists room 1.
\<close>

theorem rooms_available_counts_cancelled:
  "route_rooms_available (store_of [booking_at 1 1 1 10 20 (Some 5)] 2) (Some 10) (Some 20)
     = (200, RoomList [])
   \<and> route_rooms_available (without_cancelled (store_of [booking_at 1 1 1 10 20 (Some 5)] 2))
       (Some 10) (Some 20)
     = (200, RoomList [room_at 1])"
  by (simp add: route_rooms_available_def bookedRoomIds_def overlaps_available_def
      without_cancelled_def)

section \<open>Intervals that end before they start\<close>

text \<open>
  C4. \<open>POST /bookings\<close> answers 400 only when \<open>room_id\<close>, \<open>start_time\<close> or \<open>end_time\<close> is
  missing; neither the route nor \<open>createBookingSafe\<close> compares start and end. On a store
  without bookings, a request for room 1 from 20 to 10, and one from 20 to 20, is answered
  with 201 and the row is inserted.
\<close>

theorem create_accepts_improper_interval:
  "route_post_bookings (store_of [] 1) \<lparr>user_id = 1, role = ''user''\<rparr> (request_at 1 20 10) 5
     = ((201, BookingBody \<lparr>booking_id = 1, userId = 1, roomId = 1, startTime = 20, endTime = 10,
                description = None, deletedAt = None, createdAt = 5\<rparr>),
        store_of [\<lparr>booking_id = 1, userId = 1, roomId = 1, startTime = 20, endTime = 10,
                description = None, deletedAt = None, createdAt = 5\<rparr>] 2)
   \<and> route_post_bookings (store_of [] 1) \<lparr>user_id = 1, role = ''user''\<rparr> (request_at 1 20 20) 5
     = ((201, BookingBody \<lparr>booking_id = 1, userId = 1, roomId = 1, startTime = 20, endTime = 20,
                description = None, deletedAt = None, createdAt = 5\<rparr>),
        store_of [\<lparr>booking_id = 1, userId = 1, roomId = 1, startTime = 20, endTime = 20,
                description = None, deletedAt = None, createdAt = 5\<rparr>] 2)"
  by (simp add: route_post_bookings_def other_user_forbidden_def bookingUserId_def
      createBookingSafe_def transaction_def overlappingBookings_def booking_create_def
      unique_booking_violated_def foreign_key_violated_def int4_def Let_def)


section \<open>Cancellation\<close>










lemma softDeleteBooking_elevated:
  assumes "wf_store s" and "r \<in> set (bookings s)" and "deletedAt r = None"
  shows "softDeleteBooking s (booking_id r) 0 now =
     (Inr (r\<lparr>deletedAt := Some now\<rparr>),
      s\<lparr>bookings :=
          map (\<lambda>x. if booking_id x = booking_id r then x\<lparr>deletedAt := Some now\<rparr> else x)
            (bookings s)\<rparr>)"
  by (simp add: softDeleteBooking_def wf_store_int4 [OF assms(1,2)] find_active [OF assms])

lemma softDeleteBooking_owner:
  assumes "wf_store s" and "r \<in> set (bookings s)" and "deletedAt r = None"
  shows "softDeleteBooking s (booking_id r) (userId r) now =
     (Inr (r\<lparr>deletedAt := Some now\<rparr>),
      s\<lparr>bookings :=
          map (\<lambda>x. if booking_id x = booking_id r then x\<lparr>deletedAt := Some now\<rparr> else x)
            (bookings s)\<rparr>)"
proof (cases "userId r = 0")
  case True
  with assms show ?thesis using softDeleteBooking_elevated [of s r now] by simp
next
  case False
  from assms(1) have d: "distinct (map booking_id (bookings s))" by (simp add: wf_store_def)
  have "find (\<lambda>b. booking_id b = booking_id r \<and> userId b = userId r \<and> deletedAt b = None)
      (bookings s) = Some r"
    using find_by_key [where P = "\<lambda>b. booking_id b = booking_id r \<and> userId b = userId r
        \<and> deletedAt b = None", OF d assms(2)] assms(3) by simp
  with False show ?thesis by (simp add: softDeleteBooking_def wf_store_int4 [OF assms(1,2)])
qed

lemma softDeleteBooking_stranger:
  assumes "wf_store s" and "r \<in> set (bookings s)" and "uid \<noteq> 0" and "uid \<noteq> userId r"
  shows "softDeleteBooking s (booking_id r) uid now =
     (Inl (Error ''Booking not found or already cancelled''), s)"
proof -
  from assms(1) have d: "distinct (map booking_id (bookings s))" by (simp add: wf_store_def)
  have "\<not> (booking_id b = booking_id r \<and> userId b = uid \<and> deletedAt b = None)"
    if "b \<in> set (bookings s)" for b
  proof
    assume a: "booking_id b = booking_id r \<and> userId b = uid \<and> deletedAt b = None"
    then have "b = r" using same_id_same_row [OF d assms(2) that] by simp
    with a assms(4) show False by simp
  qed
  then have "find (\<lambda>b. booking_id b = booking_id r \<and> userId b = uid \<and> deletedAt b = None)
      (bookings s) = None"
    by (simp add: find_None_iff)
  with assms(3) show ?thesis by (simp add: softDeleteBooking_def wf_store_int4 [OF assms(1,2)])
qed




text \<open>
  C5. For an active booking of a well-formed store whose start is at or before the time of the
  request: \<open>DELETE /bookings/:id\<close> by its owner, who is not an admin, is refused with status
  400 (cannot cancel past or ongoing bookings) and the store, so the booking, stays as it
  was; the same request by an admin succeeds with status 200 and the stored row gets
  \<open>deletedAt\<close> set.
\<close>

theorem cancel_started_booking:
  assumes "wf_store s" and "r \<in> set (bookings s)" and "deletedAt r = None"
    and "startTime r \<le> now"
  shows "(role u \<noteq> ''admin'' \<and> user_id u = userId r \<longrightarrow>
            route_delete_booking s u (booking_id r) now now_upd =
              ((400, Message ''Cannot cancel past or ongoing bookings''), s))
    \<and> (role a = ''admin'' \<longrightarrow>
          route_delete_booking s a (booking_id r) now now_upd =
            ((200, CancelledBody ''Booking cancelled successfully'' (r\<lparr>deletedAt := Some now_upd\<rparr>)),
             s\<lparr>bookings :=
                 map (\<lambda>x. if booking_id x = booking_id r then x\<lparr>deletedAt := Some now_upd\<rparr> else x)
                   (bookings s)\<rparr>)
          \<and> r\<lparr>deletedAt := Some now_upd\<rparr> \<in> set (bookings (snd
                (route_delete_booking s a (booking_id r) now now_upd))))"
proof (intro conjI impI)
  assume "role u \<noteq> ''admin'' \<and> user_id u = userId r"
  then have "cancel_refused s u (booking_id r) now =
      Some (400, Message ''Cannot cancel past or ongoing bookings'')"
    using getBookingById_active [OF assms(1,2,3)] assms(4) by (simp add: cancel_refused_def)
  then show "route_delete_booking s u (booking_id r) now now_upd =
      ((400, Message ''Cannot cancel past or ongoing bookings''), s)"
    by (simp add: route_delete_booking_def)
next
  assume adm: "role a = ''admin''"
  then have "cancel_refused s a (booking_id r) now = None" and "cancel_actor a = 0"
    by (simp_all add: cancel_refused_def cancel_actor_def)
  then show res: "route_delete_booking s a (booking_id r) now now_upd =
            ((200, CancelledBody ''Booking cancelled successfully'' (r\<lparr>deletedAt := Some now_upd\<rparr>)),
             s\<lparr>bookings :=
                 map (\<lambda>x. if booking_id x = booking_id r then x\<lparr>deletedAt := Some now_upd\<rparr> else x)
                   (bookings s)\<rparr>)"
    by (simp add: route_delete_booking_def softDeleteBooking_elevated [OF assms(1,2,3)])
  show "r\<lparr>deletedAt := Some now_upd\<rparr> \<in> set (bookings (snd
                (route_delete_booking s a (booking_id r) now now_upd)))"
    unfolding res using assms(2) by auto
qed

theorem cancel_started_booking_witness:
  "route_delete_booking (store_of [booking_at 1 1 1 10 20 None] 2)
      \<lparr>user_id = 1, role = ''user''\<rparr> 1 15 16
     = ((400, Message ''Cannot cancel past or ongoing bookings''),
        store_of [booking_at 1 1 1 10 20 None] 2)
   \<and> route_delete_booking (store_of [booking_at 1 1 1 10 20 None] 2)
      \<lparr>user_id = 2, role = ''admin''\<rparr> 1 15 16
     = ((200, CancelledBody ''Booking cancelled successfully'' (booking_at 1 1 1 10 20 (Some 16))),
        store_of [booking_at 1 1 1 10 20 (Some 16)] 2)"
  using cancel_started_booking [where s = "store_of [booking_at 1 1 1 10 20 None] 2"
      and r = "booking_at 1 1 1 10 20 None" and now = 15 and now_upd = 16
      and u = "\<lparr>user_id = 1, role = ''user''\<rparr>" and a = "\<lparr>user_id = 2, role = ''admin''\<rparr>"]
  by (simp add: wf_store_def)





text \<open>
  C9. For an active booking \<open>r\<close> of a well-formed store and every actor id:
  \<open>softDeleteBooking\<close> succeeds iff the actor is \<open>0\<close> or the owner of \<open>r\<close>, and the actor
  \<open>0\<close> cancels \<open>r\<close> whoever owns it. The route passes \<open>0\<close> for an admin and the caller's
  own id for anyone else; as the ids of users are database keys, which are not \<open>0\<close>, it
  passes \<open>0\<close> exactly when the caller is an admin.
\<close>

theorem softDeleteBooking_actor:
  assumes "wf_store s" and "r \<in> set (bookings s)" and "deletedAt r = None"
  shows "((\<exists>b s'. softDeleteBooking s (booking_id r) uid now = (Inr b, s'))
            \<longleftrightarrow> uid = 0 \<or> uid = userId r)
    \<and> softDeleteBooking s (booking_id r) 0 now =
        (Inr (r\<lparr>deletedAt := Some now\<rparr>),
         s\<lparr>bookings :=
             map (\<lambda>x. if booking_id x = booking_id r then x\<lparr>deletedAt := Some now\<rparr> else x)
               (bookings s)\<rparr>)
    \<and> (role c = ''admin'' \<longrightarrow> cancel_actor c = 0)
    \<and> (role c \<noteq> ''admin'' \<longrightarrow> cancel_actor c = user_id c)
    \<and> (user_id c \<noteq> 0 \<longrightarrow> (cancel_actor c = 0 \<longleftrightarrow> role c = ''admin''))"
proof -
  have "(\<exists>b s'. softDeleteBooking s (booking_id r) uid now = (Inr b, s'))
            \<longleftrightarrow> uid = 0 \<or> uid = userId r"
  proof (cases "uid = 0 \<or> uid = userId r")
    case True
    then show ?thesis
      using softDeleteBooking_elevated [OF assms, of now] softDeleteBooking_owner [OF assms, of now]
      by auto
  next
    case False
    then show ?thesis
      using softDeleteBooking_stranger [OF assms(1,2), of uid now] by simp
  qed
  then show ?thesis
    by (simp add: softDeleteBooking_elevated [OF assms] cancel_actor_def)
qed

theorem softDeleteBooking_actor_witness:
  "softDeleteBooking (store_of [booking_at 1 7 1 30 40 None] 2) 1 0 16
     = (Inr (booking_at 1 7 1 30 40 (Some 16)), store_of [booking_at 1 7 1 30 40 (Some 16)] 2)
   \<and> (\<exists>b s'. softDeleteBooking (store_of [booking_at 1 7 1 30 40 None] 2) 1 7 16 = (Inr b, s'))
   \<and> \<not> (\<exists>b s'. softDeleteBooking (store_of [booking_at 1 7 1 30 40 None] 2) 1 8 16 = (Inr b, s'))
   \<and> cancel_actor \<lparr>user_id = 3, role = ''admin''\<rparr> = 0
   \<and> cancel_actor \<lparr>user_id = 7, role = ''user''\<rparr> = 7"
  using softDeleteBooking_actor [where s = "store_of [booking_at 1 7 1 30 40 None] 2"
      and r = "booking_at 1 7 1 30 40 None" and uid = 7 and now = 16
      and c = "\<lparr>user_id = 3, role = ''admin''\<rparr>"]
    softDeleteBooking_actor [where s = "store_of [booking_at 1 7 1 30 40 None] 2"
      and r = "booking_at 1 7 1 30 40 None" and uid = 8 and now = 16
      and c = "\<lparr>user_id = 7, role = ''user''\<rparr>"]
  by (simp add: wf_store_def)

section \<open>Availability\<close>

text \<open>
  C7. When \<open>createBookingSafe\<close> succeeds on a well-formed store and returns the booking
  \<open>x\<close>, then on the resulting store \<open>checkRoomAvailability\<close> for the same room and interval
  is false, and with the id of \<open>x\<close> excluded it is true.
\<close>

theorem create_then_checkRoomAvailability:
  assumes "wf_store s" and "createBookingSafe s uid rid st et d now = (Inr x, s')"
  shows "\<not> checkRoomAvailability s' rid st et None
    \<and> checkRoomAvailability s' rid st et (Some (booking_id x))"
proof -
  from createBookingSafe_Inr [OF assms(2)]
  have free: "overlappingBookings s rid st et = []"
    and x: "x = \<lparr>booking_id = next_booking_id s, userId = uid, roomId = rid, startTime = st,
            endTime = et, description = d, deletedAt = None, createdAt = now\<rparr>"
    and s': "bookings s' = bookings s @ [x]"
    by simp_all
  from assms(1) have nz: "booking_id x \<noteq> 0" by (simp add: x wf_store_def)
  have own: "roomId x = rid \<and> deletedAt x = None \<and> overlaps_where st et x"
    by (simp add: x overlaps_where_def)
  from free have none: "filter (\<lambda>b. roomId b = rid \<and> deletedAt b = None \<and> overlaps_where st et b
      \<and> booking_id b \<noteq> booking_id x) (bookings s) = []"
    by (auto simp: overlappingBookings_def filter_empty_conv overlaps_raw_def overlaps_where_def)
  have "\<not> checkRoomAvailability s' rid st et None"
    by (simp add: checkRoomAvailability_def s' own)
  moreover have "checkRoomAvailability s' rid st et (Some (booking_id x))"
    using nz none by (simp add: checkRoomAvailability_def s')
  ultimately show ?thesis by simp
qed

theorem create_then_checkRoomAvailability_witness:
  "createBookingSafe (store_of [booking_at 1 1 1 10 20 None] 2) 2 1 20 30 None 6
     = (Inr \<lparr>booking_id = 2, userId = 2, roomId = 1, startTime = 20, endTime = 30,
             description = None, deletedAt = None, createdAt = 6\<rparr>,
        store_of [booking_at 1 1 1 10 20 None,
           \<lparr>booking_id = 2, userId = 2, roomId = 1, startTime = 20, endTime = 30,
             description = None, deletedAt = None, createdAt = 6\<rparr>] 3)
   \<and> \<not> checkRoomAvailability (store_of [booking_at 1 1 1 10 20 None,
           \<lparr>booking_id = 2, userId = 2, roomId = 1, startTime = 20, endTime = 30,
             description = None, deletedAt = None, createdAt = 6\<rparr>] 3) 1 20 30 None
   \<and> checkRoomAvailability (store_of [booking_at 1 1 1 10 20 None,
           \<lparr>booking_id = 2, userId = 2, roomId = 1, startTime = 20, endTime = 30,
             description = None, deletedAt = None, createdAt = 6\<rparr>] 3) 1 20 30 (Some 2)"
proof -
  have wf: "wf_store (store_of [booking_at 1 1 1 10 20 None] 2)"
    by (simp add: wf_store_def)
  have cr: "createBookingSafe (store_of [booking_at 1 1 1 10 20 None] 2) 2 1 20 30 None 6
     = (Inr \<lparr>booking_id = 2, userId = 2, roomId = 1, startTime = 20, endTime = 30,
             description = None, deletedAt = None, createdAt = 6\<rparr>,
        store_of [booking_at 1 1 1 10 20 None,
           \<lparr>booking_id = 2, userId = 2, roomId = 1, startTime = 20, endTime = 30,
             description = None, deletedAt = None, createdAt = 6\<rparr>] 3)"
    by (simp add: createBookingSafe_def transaction_def overlappingBookings_def
        booking_create_def unique_booking_violated_def foreign_key_violated_def int4_def
        overlaps_raw_def Let_def)
  from create_then_checkRoomAvailability [OF wf cr] cr show ?thesis by simp
qed

text \<open>
  C10. With \<open>excludeBookingId = 0\<close> no booking is excluded: \<open>checkRoomAvailability\<close> gives
  the same answer as without the argument, for every store, room and interval. So when an
  active booking with id \<open>0\<close> of the room overlaps the interval, it is counted and the answer
  is false.
\<close>

theorem checkRoomAvailability_exclude_zero:
  "checkRoomAvailability s rid st et (Some 0) = checkRoomAvailability s rid st et None
   \<and> ((\<exists>b\<in>set (bookings s). booking_id b = 0 \<and> roomId b = rid \<and> deletedAt b = None
          \<and> overlaps_where st et b) \<longrightarrow>
        \<not> checkRoomAvailability s rid st et (Some 0))"
proof -
  have same: "checkRoomAvailability s rid st et (Some 0) = checkRoomAvailability s rid st et None"
    by (simp add: checkRoomAvailability_def)
  have "\<not> checkRoomAvailability s rid st et None"
    if "\<exists>b\<in>set (bookings s). booking_id b = 0 \<and> roomId b = rid \<and> deletedAt b = None
          \<and> overlaps_where st et b"
    using that by (auto simp: checkRoomAvailability_def filter_empty_conv)
  with same show ?thesis by simp
qed

theorem checkRoomAvailability_exclude_zero_witness:
  "\<not> checkRoomAvailability (store_of [booking_at 0 1 1 10 20 None] 1) 1 15 25 (Some 0)
   \<and> \<not> checkRoomAvailability (store_of [booking_at 0 1 1 10 20 None] 1) 1 15 25 None"
  using checkRoomAvailability_exclude_zero [where s = "store_of [booking_at 0 1 1 10 20 None] 1"
      and rid = 1 and st = 15 and et = 25]
  by (auto simp: overlaps_where_def)

section \<open>Listing\<close>

text \<open>An owner id of \<open>0\<close> is not a filter: it lists like an absent one.\<close>

lemma getActiveBookings_zero: "getActiveBookings s (Some 0) = getActiveBookings s None"
  by (simp add: getActiveBookings_def)

lemma getActiveBookings_sorted: "sorted (map startTime (getActiveBookings s uid))"
  unfolding getActiveBookings_def by (rule sorted_sort_key)

lemma getActiveBookings_all:
  "mset (getActiveBookings s None) = mset (filter (\<lambda>b. deletedAt b = None) (bookings s))"
  by (simp add: getActiveBookings_def)

lemma getActiveBookings_own:
  "i \<noteq> 0 \<Longrightarrow> mset (getActiveBookings s (Some i))
     = mset (filter (\<lambda>b. deletedAt b = None \<and> userId b = i) (bookings s))"
  by (simp add: getActiveBookings_def)

text \<open>
  C8. \<open>GET /bookings\<close> answers with \<open>getActiveBookings\<close>: for an admin exactly the rows with
  \<open>deletedAt\<close> null, for any other caller (whose id, a database key, is not \<open>0\<close>) exactly
  those of them that are the caller's own; in both cases ordered by \<open>startTime\<close> ascending.
\<close>

theorem list_active_bookings:
  "(role u = ''admin'' \<longrightarrow>
      route_get_bookings s u = (200, BookingList (getActiveBookings s None))
      \<and> mset (getActiveBookings s None) = mset (filter (\<lambda>b. deletedAt b = None) (bookings s))
      \<and> sorted (map startTime (getActiveBookings s None)))
   \<and> (role u \<noteq> ''admin'' \<and> user_id u \<noteq> 0 \<longrightarrow>
      route_get_bookings s u = (200, BookingList (getActiveBookings s (Some (user_id u))))
      \<and> mset (getActiveBookings s (Some (user_id u)))
          = mset (filter (\<lambda>b. deletedAt b = None \<and> userId b = user_id u) (bookings s))
      \<and> sorted (map startTime (getActiveBookings s (Some (user_id u)))))"
proof (intro conjI impI)
  assume "role u = ''admin''"
  then show "route_get_bookings s u = (200, BookingList (getActiveBookings s None))"
    by (simp add: route_get_bookings_def)
  show "mset (getActiveBookings s None) = mset (filter (\<lambda>b. deletedAt b = None) (bookings s))"
    by (rule getActiveBookings_all)
  show "sorted (map startTime (getActiveBookings s None))"
    by (rule getActiveBookings_sorted)
next
  assume other: "role u \<noteq> ''admin'' \<and> user_id u \<noteq> 0"
  then show "route_get_bookings s u = (200, BookingList (getActiveBookings s (Some (user_id u))))"
    by (simp add: route_get_bookings_def)
  from other show "mset (getActiveBookings s (Some (user_id u)))
      = mset (filter (\<lambda>b. deletedAt b = None \<and> userId b = user_id u) (bookings s))"
    by (simp add: getActiveBookings_own)
  show "sorted (map startTime (getActiveBookings s (Some (user_id u))))"
    by (rule getActiveBookings_sorted)
qed

theorem list_active_bookings_witness:
  "route_get_bookings
      (store_of [booking_at 1 1 1 30 40 None, booking_at 2 2 1 10 20 None,
                 booking_at 3 1 1 50 60 (Some 5), booking_at 4 1 1 5 8 None] 5)
      \<lparr>user_id = 9, role = ''admin''\<rparr>
     = (200, BookingList [booking_at 4 1 1 5 8 None, booking_at 2 2 1 10 20 None,
                          booking_at 1 1 1 30 40 None])
   \<and> route_get_bookings
      (store_of [booking_at 1 1 1 30 40 None, booking_at 2 2 1 10 20 None,
                 booking_at 3 1 1 50 60 (Some 5), booking_at 4 1 1 5 8 None] 5)
      \<lparr>user_id = 1, role = ''user''\<rparr>
     = (200, BookingList [booking_at 4 1 1 5 8 None, booking_at 1 1 1 30 40 None])"
  using list_active_bookings [where u = "\<lparr>user_id = 9, role = ''admin''\<rparr>"
      and s = "store_of [booking_at 1 1 1 30 40 None, booking_at 2 2 1 10 20 None,
                 booking_at 3 1 1 50 60 (Some 5), booking_at 4 1 1 5 8 None] 5"]
    list_active_bookings [where u = "\<lparr>user_id = 1, role = ''user''\<rparr>"
      and s = "store_of [booking_at 1 1 1 30 40 None, booking_at 2 2 1 10 20 None,
                 booking_at 3 1 1 50 60 (Some 5), booking_at 4 1 1 5 8 None] 5"]
  by (simp add: getActiveBookings_def)

end
